theory Spec2Isabelle
  imports Main "HOL-Library.Word"
begin

section \<open>The transcript state engine of the \<open>useTranslator\<close> hook\<close>

text \<open>
  The development embeds the React hook \<open>useTranslator\<close> of \<open>src/app/src/App.tsx\<close>
  (the second document of that file, lines 390 to 751). Every event handler of the hook is a
  function from the hook's state to its new state. A handler runs to completion before the
  next one starts, as JavaScript callbacks do. The readings of the clock that a handler takes
  (\<open>Date.now()\<close>, \<open>new Date().toLocaleTimeString()\<close>) are parameters of the function,
  one parameter per reading, in the order of the source.
\<close>

subsection \<open>JavaScript strings\<close>

text \<open>
  A JavaScript string is a sequence of UTF-16 code units. \<open>js\<close> writes an ASCII literal.
\<close>

type_synonym jsstring = "16 word list"

definition js :: "string \<Rightarrow> jsstring" where
  "js cs = map (\<lambda>c. of_nat (of_char c)) cs"

text \<open>
  \<open>String.prototype.trim\<close> removes, at both ends, the code units that ECMAScript calls
  WhiteSpace (TAB, VT, FF, ZWNBSP and the Unicode space separators) or LineTerminator
  (LF, CR, LS, PS).
\<close>

definition isWhiteSpace :: "16 word \<Rightarrow> bool" where
  "isWhiteSpace c \<longleftrightarrow>
     c = 0x0009 \<or> c = 0x000A \<or> c = 0x000B \<or> c = 0x000C \<or> c = 0x000D \<or> c = 0x0020 \<or>
     c = 0x00A0 \<or> c = 0x1680 \<or> (0x2000 \<le> c \<and> c \<le> 0x200A) \<or> c = 0x2028 \<or>
     c = 0x2029 \<or> c = 0x202F \<or> c = 0x205F \<or> c = 0x3000 \<or> c = 0xFEFF"

definition trim :: "jsstring \<Rightarrow> jsstring" where
  "trim s = rev (dropWhile isWhiteSpace (rev (dropWhile isWhiteSpace s)))"

text \<open>
  The test \<open>/[.?!\<dots>]$/.test(t)\<close> of the silence commit: the regular expression has no
  flag, so \<open>$\<close> is the end of the input and the class is matched against one code unit.
  The class holds full stop, question mark, exclamation mark, U+2026 (horizontal ellipsis),
  U+3002 (ideographic full stop), U+FF1F and U+FF01 (full-width question and exclamation
  mark).
\<close>

definition terminalPunctuation :: "16 word set" where
  "terminalPunctuation = {0x002E, 0x003F, 0x0021, 0x2026, 0x3002, 0xFF1F, 0xFF01}"

definition endsWithPunctuation :: "jsstring \<Rightarrow> bool" where
  "endsWithPunctuation t \<longleftrightarrow> t \<noteq> [] \<and> last t \<in> terminalPunctuation"

text \<open>
  A value that may be \<open>undefined\<close> is an option; \<open>truthy\<close> is the test \<open>if (text)\<close>:
  \<open>undefined\<close> and the empty string fail it.
\<close>

definition truthy :: "jsstring option \<Rightarrow> bool" where
  "truthy v \<longleftrightarrow> (case v of None \<Rightarrow> False | Some x \<Rightarrow> x \<noteq> [])"

subsection \<open>The state of the hook\<close>

datatype TranslatorStatus = Idle | Listening | Translating | Error

record TranscriptItem =
  item_id :: int
  item_timestamp :: jsstring
  item_text :: jsstring

text \<open>
  The first seven fields are the \<open>useState\<close> cells, the next ten the \<open>useRef\<close> cells
  (an object reference is modelled by whether it is held; the interval handle by its number).
  The last five fields are the part of the JavaScript runtime that the hook talks to: the
  table of interval timers that \<open>setInterval\<close> has created and \<open>clearInterval\<close> has not
  yet cancelled, the next handle \<open>setInterval\<close> will return (handles are positive, so the
  source's test \<open>if (silenceTimerRef.current)\<close> is the test for a held handle), the number of
  pending \<open>setTimeout\<close> callbacks of the silence indicator, the number of calls of
  \<open>startTranslator\<close> suspended at an \<open>await\<close>, and the number of recognizers that
  \<open>new SpeechSDK.TranslationRecognizer\<close> has created and \<open>close()\<close> has not yet closed.
\<close>

record hook =
  status :: TranslatorStatus
  transcript :: "TranscriptItem list"
  interimText :: jsstring
  lastCommitted :: jsstring
  errorMessage :: "jsstring option"
  silenceCommitted :: bool
  latencyMs :: "int option"
  recognizerRef :: bool
  mediaStreamRef :: bool
  audioContextRef :: bool
  processorRef :: bool
  pushStreamRef :: bool
  lastUpdateTimeRef :: int
  silenceTimerRef :: "nat option"
  lastCommittedTextRef :: jsstring
  currentInterimRef :: jsstring
  lastEventTimeRef :: int
  intervals :: "nat set"
  nextHandle :: nat
  indicatorTimeouts :: nat
  pendingStarts :: nat
  recognizers :: nat

definition initial :: hook where
  "initial = \<lparr> status = Idle, transcript = [], interimText = [], lastCommitted = [],
     errorMessage = None, silenceCommitted = False, latencyMs = None,
     recognizerRef = False, mediaStreamRef = False, audioContextRef = False,
     processorRef = False, pushStreamRef = False, lastUpdateTimeRef = 0,
     silenceTimerRef = None, lastCommittedTextRef = [], currentInterimRef = [],
     lastEventTimeRef = 0, intervals = {}, nextHandle = 1, indicatorTimeouts = 0,
     pendingStarts = 0, recognizers = 0 \<rparr>"

definition SILENCE_MS :: int where
  "SILENCE_MS = 700"

definition active :: "TranslatorStatus \<Rightarrow> bool" where
  "active st \<longleftrightarrow> st = Listening \<or> st = Translating"

subsection \<open>The silence detection effect\<close>

text \<open>
  \<open>if (silenceTimerRef.current) { clearInterval(silenceTimerRef.current);
  silenceTimerRef.current = null; }\<close>: this block occurs in the effect's inactive branch, in
  the effect's cleanup function and in \<open>cleanupRecognizer\<close>.
\<close>

definition clearSilenceTimer :: "hook \<Rightarrow> hook" where
  "clearSilenceTimer s =
     (case silenceTimerRef s of
        None \<Rightarrow> s
      | Some h \<Rightarrow> s\<lparr> intervals := intervals s - {h}, silenceTimerRef := None \<rparr>)"

text \<open>The body of the interval callback (lines 456 to 496), one poll tick.\<close>

definition checkSilence :: "int \<Rightarrow> int \<Rightarrow> jsstring \<Rightarrow> hook \<Rightarrow> hook" where
  "checkSilence now idNow timeString s =
     (let timeSinceUpdate = now - lastUpdateTimeRef s;
          currentInterim = currentInterimRef s
      in if timeSinceUpdate \<ge> SILENCE_MS \<and> length (trim currentInterim) > 0 \<and>
            trim currentInterim \<noteq> lastCommittedTextRef s
         then
           (let t = trim currentInterim;
                textToCommit = (if \<not> endsWithPunctuation t then t @ js ''.'' else t);
                newItem = \<lparr> item_id = idNow, item_timestamp = timeString,
                            item_text = textToCommit \<rparr>
            in s\<lparr> transcript := transcript s @ [newItem],
                  lastCommitted := textToCommit,
                  interimText := [],
                  currentInterimRef := [],
                  lastCommittedTextRef := textToCommit,
                  silenceCommitted := True,
                  indicatorTimeouts := Suc (indicatorTimeouts s),
                  lastUpdateTimeRef := now \<rparr>)
         else s)"

text \<open>
  The effect body (lines 445 to 497): with an inactive status it cancels the timer, otherwise
  it stores the handle of a new interval timer.
\<close>

definition silenceEffect :: "hook \<Rightarrow> hook" where
  "silenceEffect s =
     (if status s \<noteq> Listening \<and> status s \<noteq> Translating then clearSilenceTimer s
      else s\<lparr> silenceTimerRef := Some (nextHandle s),
               intervals := insert (nextHandle s) (intervals s),
               nextHandle := Suc (nextHandle s) \<rparr>)"

text \<open>
  The effect depends on \<open>[status]\<close>: after a handler that changed the status, React runs
  the cleanup function the previous run returned (the active branch returns one, the inactive
  branch returns none) and then the effect body. \<open>rerender prev s\<close> does this for the status
  \<open>prev\<close> of the previous render.
\<close>

definition rerender :: "TranslatorStatus \<Rightarrow> hook \<Rightarrow> hook" where
  "rerender prev s =
     (if status s = prev then s
      else silenceEffect (if active prev then clearSilenceTimer s else s))"

subsection \<open>The callbacks of the hook\<close>

datatype ResultReason = NoMatch | RecognizedSpeech | TranslatingSpeech | TranslatedSpeech

datatype CancellationReason = ReasonError | EndOfStream

text \<open>
  The part of \<open>startTranslator\<close> before the first \<open>await\<close> (lines 507 to 521). The second
  component tells whether the call goes on to the \<open>try\<close> block, that is, whether it is
  suspended at \<open>await fetch\<close>.
\<close>

definition startTranslator :: "bool \<Rightarrow> int \<Rightarrow> hook \<Rightarrow> hook \<times> bool" where
  "startTranslator sdkLoaded now s =
     (if recognizerRef s then (s, False)
      else if \<not> sdkLoaded then
        (s\<lparr> errorMessage :=
               Some (js ''Speech SDK not loaded. Check your internet connection.''),
            status := Error \<rparr>, False)
      else
        (s\<lparr> status := Listening, errorMessage := None, interimText := [],
            lastUpdateTimeRef := now, lastCommittedTextRef := [],
            currentInterimRef := [] \<rparr>, True))"

text \<open>
  \<open>cleanupRecognizer\<close> (lines 668 to 718) closes the recognizer that \<open>recognizerRef\<close>
  holds, if it holds one; a recognizer that the ref no longer points to stays open.
\<close>

definition cleanupRecognizer :: "hook \<Rightarrow> hook" where
  "cleanupRecognizer s =
     (clearSilenceTimer s)\<lparr> recognizers :=
          (if recognizerRef s then recognizers s - 1 else recognizers s),
        recognizerRef := False, pushStreamRef := False,
        processorRef := False, audioContextRef := False, mediaStreamRef := False,
        currentInterimRef := [] \<rparr>"

definition stopTranslator :: "hook \<Rightarrow> hook" where
  "stopTranslator s =
     (cleanupRecognizer s)\<lparr> status := Idle, interimText := [], latencyMs := None,
        lastEventTimeRef := 0 \<rparr>"

text \<open>
  The rest of \<open>startTranslator\<close>, run when the awaited promises settle. Either the
  \<open>try\<close> block runs to its end (the audio pipeline and the recognizer are created and
  stored in their refs), or something in it throws and the \<open>catch\<close> block runs; the
  parameter is then \<open>err.message\<close>.
\<close>

datatype StartOutcome = Started | Thrown "jsstring option"

definition startTranslator_resume :: "StartOutcome \<Rightarrow> hook \<Rightarrow> hook" where
  "startTranslator_resume outcome s =
     (case outcome of
        Started \<Rightarrow>
          s\<lparr> mediaStreamRef := True, audioContextRef := True, processorRef := True,
             pushStreamRef := True, recognizers := Suc (recognizers s),
             recognizerRef := True \<rparr>
      | Thrown message \<Rightarrow>
          cleanupRecognizer
            (s\<lparr> errorMessage :=
                  Some (if truthy message then the message
                        else js ''Failed to start translation''),
                status := Error \<rparr>))"

text \<open>
  The latency sample of a \<open>recognizing\<close> event (lines 600 to 606): the value passed to
  \<open>setLatencyMs\<close>, if the call is made.
\<close>

definition latencySample :: "int \<Rightarrow> int \<Rightarrow> int option" where
  "latencySample lastEventTime now =
     (if lastEventTime > 0 then
        (let delta = now - lastEventTime
         in if delta \<ge> 50 \<and> delta \<le> 2000 then Some delta else None)
      else None)"

definition recognizing :: "ResultReason \<Rightarrow> jsstring option \<Rightarrow> int \<Rightarrow> hook \<Rightarrow> hook" where
  "recognizing reason translation now s =
     (if reason = TranslatingSpeech \<and> truthy translation then
        s\<lparr> latencyMs :=
              (case latencySample (lastEventTimeRef s) now of
                 Some delta \<Rightarrow> Some delta
               | None \<Rightarrow> latencyMs s),
            lastEventTimeRef := now,
            status := Translating,
            interimText := the translation,
            currentInterimRef := the translation,
            lastUpdateTimeRef := now \<rparr>
      else s)"

text \<open>
  The \<open>recognized\<close> handler (lines 617 to 634) reads the clock three times: for the id, for
  the display time and for \<open>lastUpdateTimeRef\<close>.
\<close>

definition recognized ::
  "ResultReason \<Rightarrow> jsstring option \<Rightarrow> int \<Rightarrow> jsstring \<Rightarrow> int \<Rightarrow> hook \<Rightarrow> hook" where
  "recognized reason translation idNow timeString now s =
     (if reason = TranslatedSpeech \<and> truthy translation \<and>
         trim (the translation) \<noteq> lastCommittedTextRef s
      then
        s\<lparr> transcript := transcript s @
              [\<lparr> item_id = idNow, item_timestamp = timeString,
                 item_text = the translation \<rparr>],
            lastCommitted := the translation,
            interimText := [],
            currentInterimRef := [],
            lastCommittedTextRef := the translation,
            lastUpdateTimeRef := now \<rparr>
      else s)"

definition canceled :: "CancellationReason \<Rightarrow> jsstring \<Rightarrow> hook \<Rightarrow> hook" where
  "canceled reason errorDetails s =
     (if reason = ReasonError then
        stopTranslator (s\<lparr> errorMessage := Some (js ''Speech Error: '' @ errorDetails) \<rparr>)
      else s)"

text \<open>The error callback of \<open>startContinuousRecognitionAsync\<close> (lines 653 to 657).\<close>

definition recognitionStartFailed :: "jsstring \<Rightarrow> hook \<Rightarrow> hook" where
  "recognitionStartFailed err s =
     stopTranslator (s\<lparr> errorMessage := Some (js ''Failed to start: '' @ err) \<rparr>)"

definition clearTranscript :: "hook \<Rightarrow> hook" where
  "clearTranscript s =
     s\<lparr> transcript := [], interimText := [], lastCommitted := [],
        lastCommittedTextRef := [], currentInterimRef := [] \<rparr>"

definition resetError :: "hook \<Rightarrow> hook" where
  "resetError s = s\<lparr> errorMessage := None \<rparr>"

text \<open>The callback of \<open>setTimeout(() => setSilenceCommitted(false), 1500)\<close>.\<close>

definition indicatorTimeout :: "hook \<Rightarrow> hook" where
  "indicatorTimeout s =
     s\<lparr> silenceCommitted := False, indicatorTimeouts := indicatorTimeouts s - 1 \<rparr>"

subsection \<open>Events\<close>

text \<open>
  Everything that can call into the hook. A poll tick carries the handle of the interval
  timer that fires and the three clock readings of the callback. \<open>fire e s\<close> is \<open>None\<close>
  when the event cannot happen in \<open>s\<close>: a timer that is not in the table does not fire, and a
  suspended call can only resume if there is one. The recognizer's callbacks are not
  restricted, so every run of the program is a run of the model. After the handler the
  component is rendered again.
\<close>

datatype event =
    Start bool int
  | Resume StartOutcome
  | Recognizing ResultReason "jsstring option" int
  | Recognized ResultReason "jsstring option" int jsstring int
  | Canceled CancellationReason jsstring
  | StartFailed jsstring
  | Tick nat int int jsstring
  | IndicatorTimeout
  | Stop
  | Clear
  | ResetError

fun handle :: "event \<Rightarrow> hook \<Rightarrow> hook option" where
  "handle (Start sdkLoaded now) s =
     (let (s', suspended) = startTranslator sdkLoaded now s
      in Some (if suspended then s'\<lparr> pendingStarts := Suc (pendingStarts s') \<rparr> else s'))"
| "handle (Resume outcome) s =
     (if pendingStarts s > 0
      then Some (startTranslator_resume outcome (s\<lparr> pendingStarts := pendingStarts s - 1 \<rparr>))
      else None)"
| "handle (Recognizing reason translation now) s = Some (recognizing reason translation now s)"
| "handle (Recognized reason translation idNow timeString now) s =
     Some (recognized reason translation idNow timeString now s)"
| "handle (Canceled reason errorDetails) s = Some (canceled reason errorDetails s)"
| "handle (StartFailed err) s = Some (recognitionStartFailed err s)"
| "handle (Tick h now idNow timeString) s =
     (if h \<in> intervals s then Some (checkSilence now idNow timeString s) else None)"
| "handle IndicatorTimeout s =
     (if indicatorTimeouts s > 0 then Some (indicatorTimeout s) else None)"
| "handle Stop s = Some (stopTranslator s)"
| "handle Clear s = Some (clearTranscript s)"
| "handle ResetError s = Some (resetError s)"

definition fire :: "event \<Rightarrow> hook \<Rightarrow> hook option" where
  "fire e s = map_option (rerender (status s)) (handle e s)"

fun run :: "event list \<Rightarrow> hook \<Rightarrow> hook option" where
  "run [] s = Some s"
| "run (e # es) s = (case fire e s of None \<Rightarrow> None | Some s' \<Rightarrow> run es s')"

inductive reachable :: "hook \<Rightarrow> bool" where
  reachable_initial: "reachable initial"
| reachable_fire: "reachable s \<Longrightarrow> fire e s = Some s' \<Longrightarrow> reachable s'"

subsection \<open>Feeds of events\<close>

text \<open>
  Two measures of a list of events, used to state properties of whole runs.
  \<open>nextUpdate es\<close> is the time of the first \<open>recognizing\<close> event of \<open>es\<close>.
  \<open>steadyUpdates u es\<close> holds when \<open>es\<close> consists of interim events that pass the
  handler's guard and of poll ticks, every interim event comes less than 700 ms after the
  previous one (after \<open>u\<close> for the first), and every poll tick is followed by an interim event
  whose time is not before the tick's: updates keep arriving with gaps below 700 ms.
  \<open>interimEvents es\<close> counts the interim events of \<open>es\<close> that pass the handler's guard.
\<close>

fun nextUpdate :: "event list \<Rightarrow> int option" where
  "nextUpdate [] = None"
| "nextUpdate (Recognizing reason translation now # es) = Some now"
| "nextUpdate (e # es) = nextUpdate es"

fun steadyUpdates :: "int \<Rightarrow> event list \<Rightarrow> bool" where
  "steadyUpdates u [] = True"
| "steadyUpdates u (Recognizing reason translation now # es) =
     (reason = TranslatingSpeech \<and> truthy translation \<and> now - u < 700 \<and> steadyUpdates now es)"
| "steadyUpdates u (Tick h now idNow timeString # es) =
     ((case nextUpdate es of None \<Rightarrow> False | Some t \<Rightarrow> now \<le> t) \<and> steadyUpdates u es)"
| "steadyUpdates u (e # es) = False"

fun interimEvents :: "event list \<Rightarrow> nat" where
  "interimEvents [] = 0"
| "interimEvents (Recognizing reason translation now # es) =
     (if reason = TranslatingSpeech \<and> truthy translation then 1 else 0) + interimEvents es"
| "interimEvents (e # es) = interimEvents es"



section \<open>Properties\<close>

subsection \<open>Evaluation and frame lemmas\<close>

lemmas ev = startTranslator_def startTranslator_resume_def recognizing_def recognized_def
  canceled_def stopTranslator_def cleanupRecognizer_def clearTranscript_def checkSilence_def
  clearSilenceTimer_def silenceEffect_def rerender_def fire_def truthy_def trim_def js_def
  isWhiteSpace_def endsWithPunctuation_def terminalPunctuation_def SILENCE_MS_def
  latencySample_def active_def initial_def Let_def

lemmas handler_defs = startTranslator_def startTranslator_resume_def recognizing_def
  recognized_def canceled_def recognitionStartFailed_def stopTranslator_def
  cleanupRecognizer_def clearTranscript_def resetError_def indicatorTimeout_def
  checkSilence_def clearSilenceTimer_def

text \<open>Rendering again touches the timer fields only.\<close>

lemma rerender_frame:
  "status (rerender p s) = status s"
  "transcript (rerender p s) = transcript s"
  "interimText (rerender p s) = interimText s"
  "lastCommitted (rerender p s) = lastCommitted s"
  "errorMessage (rerender p s) = errorMessage s"
  "silenceCommitted (rerender p s) = silenceCommitted s"
  "latencyMs (rerender p s) = latencyMs s"
  "recognizerRef (rerender p s) = recognizerRef s"
  "lastUpdateTimeRef (rerender p s) = lastUpdateTimeRef s"
  "lastCommittedTextRef (rerender p s) = lastCommittedTextRef s"
  "currentInterimRef (rerender p s) = currentInterimRef s"
  "lastEventTimeRef (rerender p s) = lastEventTimeRef s"
  "indicatorTimeouts (rerender p s) = indicatorTimeouts s"
  "pendingStarts (rerender p s) = pendingStarts s"
  "recognizers (rerender p s) = recognizers s"
  by (simp_all add: rerender_def silenceEffect_def clearSilenceTimer_def split: option.splits)

lemma rerender_same: "rerender (status s) s = s"
  by (simp add: rerender_def)

lemma fire_handle:
  assumes "fire e s = Some s'"
  obtains s1 where "handle e s = Some s1" and "s' = rerender (status s) s1"
  using assms unfolding fire_def by (cases "handle e s") simp_all

lemma run_Cons:
  assumes "run (e # es) s = Some s'"
  obtains s1 where "fire e s = Some s1" and "run es s1 = Some s'"
  using assms by (cases "fire e s") simp_all

subsection \<open>Feeds whose updates keep arriving\<close>

lemma nextUpdate_gap:
  "steadyUpdates u es \<Longrightarrow> nextUpdate es = Some t \<Longrightarrow> t - u < 700"
  by (induction u es rule: steadyUpdates.induct) auto

lemma checkSilence_early:
  "now - lastUpdateTimeRef s < 700 \<Longrightarrow> checkSilence now idNow ts s = s"
  by (simp add: checkSilence_def SILENCE_MS_def Let_def)

lemma steady_no_commit:
  "steadyUpdates (lastUpdateTimeRef s) es \<Longrightarrow> run es s = Some s' \<Longrightarrow>
     transcript s' = transcript s"
proof (induction es arbitrary: s)
  case Nil
  then show ?case by simp
next
  case (Cons e es)
  show ?case
  proof (cases e)
    case (Recognizing reason translation now)
    let ?next = "rerender (status s) (recognizing reason translation now s)"
    from Cons.prems Recognizing have ok: "reason = TranslatingSpeech" "truthy translation"
      and st: "steadyUpdates now es" by simp_all
    have upd: "lastUpdateTimeRef ?next = now" and tr: "transcript ?next = transcript s"
      using ok by (simp_all add: rerender_frame recognizing_def)
    from Cons.prems(2) Recognizing have "run es ?next = Some s'"
      by (simp add: fire_def)
    with Cons.IH[of ?next] st upd tr show ?thesis by simp
  next
    case (Tick h now idNow timeString)
    from Cons.prems(1) Tick obtain t where nu: "nextUpdate es = Some t" and le: "now \<le> t"
      and st: "steadyUpdates (lastUpdateTimeRef s) es"
      by (auto split: option.splits)
    from nextUpdate_gap[OF st nu] le have "now - lastUpdateTimeRef s < 700" by simp
    then have same: "checkSilence now idNow timeString s = s" by (rule checkSilence_early)
    from Cons.prems(2) Tick same have "run es s = Some s'"
      by (simp add: fire_def rerender_same split: if_splits)
    with Cons.IH[OF st] show ?thesis by simp
  qed (use Cons.prems in simp_all)
qed

subsection \<open>Final events\<close>

text \<open>
  Claim C2. Two consecutive final events with the same trimmed text should append one entry.
  The \<open>recognized\<close> handler compares the trimmed text with \<open>lastCommittedTextRef\<close> but
  stores the text as it came. For the text \<open>hello \<close> (trailing space) the stored value
  never equals the trimmed text \<open>hello\<close>, so the second event is appended as well.
\<close>

theorem duplicate_final_appended_twice:
  "trim (js ''hello '') = js ''hello'' \<and>
   map_option (map item_text \<circ> transcript)
     (run [Start True 900, Resume Started,
           Recognized TranslatedSpeech (Some (js ''hello '')) 1000 (js ''12:00:01'') 1000,
           Recognized TranslatedSpeech (Some (js ''hello '')) 2000 (js ''12:00:02'') 2000]
        initial) = Some [js ''hello '', js ''hello '']"
  by (simp add: ev)

text \<open>
  When the text has no white space at its ends, the stored value is the trimmed text and
  the repeated final event is suppressed.
\<close>

lemma recognized_duplicate_suppressed:
  "truthy (Some x) \<Longrightarrow> trim x = x \<Longrightarrow>
     recognized TranslatedSpeech (Some x) idNow' ts' now'
       (recognized TranslatedSpeech (Some x) idNow ts now s) =
     recognized TranslatedSpeech (Some x) idNow ts now s"
  by (simp add: recognized_def)

subsection \<open>Clearing the transcript\<close>

text \<open>
  Claim C3, as the code has it. \<open>clearTranscript\<close> empties the transcript and resets the last
  committed text (state and ref). It also clears the live line, \<open>interimText\<close> and
  \<open>currentInterimRef\<close>. The status and every other field stay as they are, and no effect
  runs.
\<close>

theorem clearTranscript_effect:
  "transcript (clearTranscript s) = [] \<and>
   lastCommitted (clearTranscript s) = [] \<and>
   lastCommittedTextRef (clearTranscript s) = [] \<and>
   interimText (clearTranscript s) = [] \<and>
   currentInterimRef (clearTranscript s) = [] \<and>
   status (clearTranscript s) = status s \<and>
   errorMessage (clearTranscript s) = errorMessage s \<and>
   silenceCommitted (clearTranscript s) = silenceCommitted s \<and>
   latencyMs (clearTranscript s) = latencyMs s \<and>
   recognizerRef (clearTranscript s) = recognizerRef s \<and>
   silenceTimerRef (clearTranscript s) = silenceTimerRef s \<and>
   intervals (clearTranscript s) = intervals s \<and>
   lastUpdateTimeRef (clearTranscript s) = lastUpdateTimeRef s \<and>
   lastEventTimeRef (clearTranscript s) = lastEventTimeRef s \<and>
   fire Clear s = Some (clearTranscript s)"
  by (simp add: clearTranscript_def fire_def rerender_def)

text \<open>
  Counterexample to C3 as stated: with the live line \<open>foo\<close>, \<open>clearTranscript\<close> does not
  leave \<open>interimText\<close> unchanged.
\<close>

theorem clearTranscript_interim_counterexample:
  "interimText (recognizing TranslatingSpeech (Some (js ''foo'')) 1000 initial) = js ''foo'' \<and>
   interimText (clearTranscript (recognizing TranslatingSpeech (Some (js ''foo'')) 1000 initial))
     \<noteq> interimText (recognizing TranslatingSpeech (Some (js ''foo'')) 1000 initial)"
  by (simp add: clearTranscript_def recognizing_def truthy_def js_def initial_def)

subsection \<open>Cancellation\<close>

text \<open>
  Claim C4, as the code has it. On a cancellation with the reason Error the handler stores the
  message \<open>Speech Error: \<close> followed by the details and calls \<open>stopTranslator\<close>: the status
  becomes \<open>Idle\<close>, the live line is cleared without being committed (the transcript and the
  last committed text are unchanged), the recognizer is released and the silence timer is
  cancelled.
\<close>

theorem canceled_error_effect:
  "status (canceled ReasonError errorDetails s) = Idle \<and>
   errorMessage (canceled ReasonError errorDetails s) =
     Some (js ''Speech Error: '' @ errorDetails) \<and>
   interimText (canceled ReasonError errorDetails s) = [] \<and>
   currentInterimRef (canceled ReasonError errorDetails s) = [] \<and>
   transcript (canceled ReasonError errorDetails s) = transcript s \<and>
   lastCommittedTextRef (canceled ReasonError errorDetails s) = lastCommittedTextRef s \<and>
   recognizerRef (canceled ReasonError errorDetails s) = False \<and>
   silenceTimerRef (canceled ReasonError errorDetails s) = None \<and>
   intervals (canceled ReasonError errorDetails s) =
     intervals s - set_option (silenceTimerRef s) \<and>
   fire (Canceled ReasonError errorDetails) s =
     Some (canceled ReasonError errorDetails s)"
  by (simp add: canceled_def stopTranslator_def cleanupRecognizer_def clearSilenceTimer_def
      fire_def rerender_def silenceEffect_def split: option.splits)

text \<open>
  Counterexample to C4 as stated: in a running session with the live line \<open>foo\<close>, a
  cancellation with the reason Error leaves the status \<open>Idle\<close>, not \<open>Error\<close>.
\<close>

theorem canceled_status_counterexample:
  "map_option status
     (run [Start True 900, Resume Started,
           Recognizing TranslatingSpeech (Some (js ''foo'')) 1000,
           Canceled ReasonError (js ''Connection lost'')] initial) = Some Idle \<and>
   map_option status
     (run [Start True 900, Resume Started,
           Recognizing TranslatingSpeech (Some (js ''foo'')) 1000,
           Canceled ReasonError (js ''Connection lost'')] initial) \<noteq> Some Error"
  by (simp add: ev)

subsection \<open>The transcript is append-only\<close>

lemma handle_transcript:
  "handle e s = Some s' \<Longrightarrow>
     transcript s' = transcript s \<or>
     (\<exists>item. transcript s' = transcript s @ [item] \<and>
        ((\<exists>h now idNow ts. e = Tick h now idNow ts) \<or>
         (\<exists>reason x idNow ts now. e = Recognized reason x idNow ts now))) \<or>
     (e = Clear \<and> transcript s' = [])"
  by (cases e)
     (auto simp: handler_defs Let_def split: if_splits option.splits StartOutcome.splits)

lemma fire_transcript:
  assumes "fire e s = Some s'"
  shows "transcript s' = transcript s \<or>
     (\<exists>item. transcript s' = transcript s @ [item] \<and>
        ((\<exists>h now idNow ts. e = Tick h now idNow ts) \<or>
         (\<exists>reason x idNow ts now. e = Recognized reason x idNow ts now))) \<or>
     (e = Clear \<and> transcript s' = [])"
proof -
  from assms obtain s1 where h: "handle e s = Some s1" and r: "s' = rerender (status s) s1"
    by (rule fire_handle)
  from handle_transcript[OF h] r show ?thesis by (simp add: rerender_frame)
qed

lemma run_no_clear_extends:
  "run es s = Some s' \<Longrightarrow> Clear \<notin> set es \<Longrightarrow> \<exists>ys. transcript s' = transcript s @ ys"
proof (induction es arbitrary: s)
  case Nil
  then show ?case by simp
next
  case (Cons e es)
  from Cons.prems(1) obtain s1 where f: "fire e s = Some s1" and r: "run es s1 = Some s'"
    by (rule run_Cons)
  from Cons.prems(2) have ne: "e \<noteq> Clear" and rest: "Clear \<notin> set es" by auto
  from fire_transcript[OF f] ne obtain zs where "transcript s1 = transcript s @ zs" by auto
  moreover from Cons.IH[OF r rest] obtain ys where "transcript s' = transcript s1 @ ys" ..
  ultimately show ?case by simp
qed

text \<open>
  Claim C5. Every event leaves the transcript unchanged, or appends exactly one entry at its
  end (only a poll tick or a final event does), or empties it (only \<open>clearTranscript\<close>
  does). So along any run without \<open>clearTranscript\<close> the old transcript stays a prefix of the
  new one: no entry is changed, removed or reordered.
\<close>

theorem transcript_append_only:
  "(fire e s = Some s' \<longrightarrow>
      transcript s' = transcript s \<or>
      (\<exists>item. transcript s' = transcript s @ [item] \<and>
         ((\<exists>h now idNow ts. e = Tick h now idNow ts) \<or>
          (\<exists>reason x idNow ts now. e = Recognized reason x idNow ts now))) \<or>
      (e = Clear \<and> transcript s' = [])) \<and>
   (run es s = Some s'' \<and> Clear \<notin> set es \<longrightarrow> (\<exists>ys. transcript s'' = transcript s @ ys))"
  using fire_transcript[of e s s'] run_no_clear_extends[of es s s''] by blast

text \<open>
  Witness for C5: a final event appends one entry, and a session with a silence commit and a
  final event, then stopped, has extended the transcript by two entries.
\<close>

theorem transcript_append_only_witness:
  "map_option transcript
     (fire (Recognized TranslatedSpeech (Some (js ''Hola'')) 1000 (js ''12:00:01'') 1000) initial) =
     Some (transcript initial @
       [\<lparr> item_id = 1000, item_timestamp = js ''12:00:01'', item_text = js ''Hola'' \<rparr>]) \<and>
   Clear \<notin> set [Start True 900, Resume Started,
                Recognizing TranslatingSpeech (Some (js ''Hola'')) 1000,
                Tick 2 1700 1701 (js ''12:00:01''),
                Recognized TranslatedSpeech (Some (js ''mundo'')) 2000 (js ''12:00:02'') 2000,
                Stop] \<and>
   (\<exists>ys. map_option transcript
      (run [Start True 900, Resume Started,
            Recognizing TranslatingSpeech (Some (js ''Hola'')) 1000,
            Tick 2 1700 1701 (js ''12:00:01''),
            Recognized TranslatedSpeech (Some (js ''mundo'')) 2000 (js ''12:00:02'') 2000,
            Stop] initial) = Some (transcript initial @ ys) \<and> length ys = 2)"
proof -
  let ?final = "Recognized TranslatedSpeech (Some (js ''Hola'')) 1000 (js ''12:00:01'') 1000"
  let ?feed = "[Start True 900, Resume Started,
                Recognizing TranslatingSpeech (Some (js ''Hola'')) 1000,
                Tick 2 1700 1701 (js ''12:00:01''),
                Recognized TranslatedSpeech (Some (js ''mundo'')) 2000 (js ''12:00:02'') 2000,
                Stop]"
  have f: "fire ?final initial = Some (the (fire ?final initial))"
    by (simp add: fire_def)
  have r: "run ?feed initial = Some (the (run ?feed initial))"
    by (simp add: ev)
  have nc: "Clear \<notin> set ?feed" by simp
  have len: "length (transcript (the (run ?feed initial))) = 2" "transcript initial = []"
    by (simp_all add: ev)
  have one: "transcript (the (fire ?final initial)) =
     transcript initial @
       [\<lparr> item_id = 1000, item_timestamp = js ''12:00:01'', item_text = js ''Hola'' \<rparr>]"
    by (simp add: ev)
  note T = transcript_append_only[of ?final initial "the (fire ?final initial)" ?feed
      "the (run ?feed initial)"]
  from T r nc obtain ys where ys: "transcript (the (run ?feed initial)) = transcript initial @ ys"
    by blast
  with len have "length ys = 2" by simp
  with ys r have "map_option transcript (run ?feed initial) = Some (transcript initial @ ys) \<and>
    length ys = 2"
    by (metis option.simps(9))
  moreover from f one have "map_option transcript (fire ?final initial) =
     Some (transcript initial @
       [\<lparr> item_id = 1000, item_timestamp = js ''12:00:01'', item_text = js ''Hola'' \<rparr>])"
    by (metis option.simps(9))
  ultimately show ?thesis using nc by blast
qed

subsection \<open>Latency samples\<close>

text \<open>
  Claim C6. Take two consecutive interim events that pass the handler's guard, the first at a
  clock reading \<open>t1 > 0\<close> (every reading of \<open>Date.now()\<close> after 1970 is positive) and the
  second at \<open>t2\<close>. The second event reports a latency sample if and only if
  \<open>50 \<le> t2 - t1 \<le> 2000\<close>, and the sample is \<open>t2 - t1\<close>; otherwise \<open>latencyMs\<close> keeps its
  value. A delta of 30 or of 3000 gives no sample, a delta of 400 gives the sample 400.
\<close>

theorem latency_sample_range:
  assumes "0 < t1" and "truthy x1" and "truthy x2"
  shows "latencySample (lastEventTimeRef (recognizing TranslatingSpeech x1 t1 s)) t2 =
           (if 50 \<le> t2 - t1 \<and> t2 - t1 \<le> 2000 then Some (t2 - t1) else None) \<and>
         latencyMs (recognizing TranslatingSpeech x2 t2 (recognizing TranslatingSpeech x1 t1 s)) =
           (if 50 \<le> t2 - t1 \<and> t2 - t1 \<le> 2000 then Some (t2 - t1)
            else latencyMs (recognizing TranslatingSpeech x1 t1 s)) \<and>
         latencySample t1 (t1 + 30) = None \<and>
         latencySample t1 (t1 + 3000) = None \<and>
         latencySample t1 (t1 + 400) = Some 400"
  using assms by (simp add: recognizing_def latencySample_def Let_def)

text \<open>Witness for C6: deltas of 400, 30 and 3000 after a first interim event at 1000.\<close>

theorem latency_sample_range_witness:
  "(0::int) < 1000 \<and> truthy (Some (js ''Hola'')) \<and> truthy (Some (js ''Hola mundo'')) \<and>
   latencyMs (recognizing TranslatingSpeech (Some (js ''Hola mundo'')) 1400
      (recognizing TranslatingSpeech (Some (js ''Hola'')) 1000 initial)) = Some 400 \<and>
   latencyMs (recognizing TranslatingSpeech (Some (js ''Hola mundo'')) 1030
      (recognizing TranslatingSpeech (Some (js ''Hola'')) 1000 initial)) = None \<and>
   latencyMs (recognizing TranslatingSpeech (Some (js ''Hola mundo'')) 4000
      (recognizing TranslatingSpeech (Some (js ''Hola'')) 1000 initial)) = None"
proof -
  have h1: "(0::int) < 1000" by simp
  have h2: "truthy (Some (js ''Hola''))" by (simp add: truthy_def js_def)
  have h3: "truthy (Some (js ''Hola mundo''))" by (simp add: truthy_def js_def)
  have first: "latencyMs (recognizing TranslatingSpeech (Some (js ''Hola'')) 1000 initial) = None"
    by (simp add: recognizing_def latencySample_def initial_def)
  show ?thesis
    using h1 h2 h3 first
      latency_sample_range[OF h1 h2 h3, of initial 1400]
      latency_sample_range[OF h1 h2 h3, of initial 1030]
      latency_sample_range[OF h1 h2 h3, of initial 4000]
    by simp
qed

subsection \<open>The silence timer\<close>

text \<open>
  What each handler does to the timer: it leaves the timer fields alone, or it cancels the
  timer and leaves an inactive status. Rendering again then cancels or replaces the timer
  according to the new status. Hence in every reachable state the table of interval timers
  holds exactly the handle stored in \<open>silenceTimerRef\<close>, a handle is stored exactly when
  the status is active, and handles are never reused.
\<close>

lemma clearSilenceTimer_timer:
  "silenceTimerRef (clearSilenceTimer s) = None"
  "intervals (clearSilenceTimer s) = intervals s - set_option (silenceTimerRef s)"
  "nextHandle (clearSilenceTimer s) = nextHandle s"
  "status (clearSilenceTimer s) = status s"
  by (simp_all add: clearSilenceTimer_def split: option.splits)

lemma cleanupRecognizer_timer:
  "silenceTimerRef (cleanupRecognizer s) = None"
  "intervals (cleanupRecognizer s) = intervals s - set_option (silenceTimerRef s)"
  "nextHandle (cleanupRecognizer s) = nextHandle s"
  "status (cleanupRecognizer s) = status s"
  by (simp_all add: cleanupRecognizer_def clearSilenceTimer_timer)

lemma stopTranslator_timer:
  "silenceTimerRef (stopTranslator s) = None"
  "intervals (stopTranslator s) = intervals s - set_option (silenceTimerRef s)"
  "nextHandle (stopTranslator s) = nextHandle s"
  "status (stopTranslator s) = Idle"
  by (simp_all add: stopTranslator_def cleanupRecognizer_timer)

lemma untouched_timer:
  "silenceTimerRef (fst (startTranslator sdkLoaded now s)) = silenceTimerRef s"
  "intervals (fst (startTranslator sdkLoaded now s)) = intervals s"
  "nextHandle (fst (startTranslator sdkLoaded now s)) = nextHandle s"
  "silenceTimerRef (startTranslator_resume Started s) = silenceTimerRef s"
  "intervals (startTranslator_resume Started s) = intervals s"
  "nextHandle (startTranslator_resume Started s) = nextHandle s"
  "silenceTimerRef (recognizing reason x now s) = silenceTimerRef s"
  "intervals (recognizing reason x now s) = intervals s"
  "nextHandle (recognizing reason x now s) = nextHandle s"
  "silenceTimerRef (recognized reason x idNow ts now s) = silenceTimerRef s"
  "intervals (recognized reason x idNow ts now s) = intervals s"
  "nextHandle (recognized reason x idNow ts now s) = nextHandle s"
  "silenceTimerRef (checkSilence now idNow ts s) = silenceTimerRef s"
  "intervals (checkSilence now idNow ts s) = intervals s"
  "nextHandle (checkSilence now idNow ts s) = nextHandle s"
  "silenceTimerRef (clearTranscript s) = silenceTimerRef s"
  "intervals (clearTranscript s) = intervals s"
  "nextHandle (clearTranscript s) = nextHandle s"
  "silenceTimerRef (resetError s) = silenceTimerRef s"
  "intervals (resetError s) = intervals s"
  "nextHandle (resetError s) = nextHandle s"
  "silenceTimerRef (indicatorTimeout s) = silenceTimerRef s"
  "intervals (indicatorTimeout s) = intervals s"
  "nextHandle (indicatorTimeout s) = nextHandle s"
  by (simp_all add: startTranslator_def startTranslator_resume_def recognizing_def
      recognized_def checkSilence_def clearTranscript_def resetError_def indicatorTimeout_def
      Let_def)

lemma handle_Start:
  "handle (Start sdkLoaded now) s =
     Some (if recognizerRef s then s
           else if \<not> sdkLoaded then fst (startTranslator sdkLoaded now s)
           else (fst (startTranslator sdkLoaded now s))\<lparr> pendingStarts := Suc (pendingStarts s) \<rparr>)"
  by (simp add: startTranslator_def)

lemma timer_Start: "handle (Start sdkLoaded now) s = Some s' \<Longrightarrow>
     nextHandle s' = nextHandle s \<and> silenceTimerRef s' = silenceTimerRef s \<and> intervals s' = intervals s"
  unfolding handle_Start by (auto simp: untouched_timer split: if_splits)

lemma timer_Resume: "handle (Resume outcome) s = Some s' \<Longrightarrow>
     nextHandle s' = nextHandle s \<and>
     ((silenceTimerRef s' = silenceTimerRef s \<and> intervals s' = intervals s) \<or>
      (silenceTimerRef s' = None \<and> intervals s' = intervals s - set_option (silenceTimerRef s) \<and>
       \<not> active (status s')))"
    by (cases outcome)
       (auto simp: startTranslator_resume_def cleanupRecognizer_timer active_def
             split: if_splits)

lemma timer_Canceled: "handle (Canceled reason errorDetails) s = Some s' \<Longrightarrow>
     nextHandle s' = nextHandle s \<and>
     ((silenceTimerRef s' = silenceTimerRef s \<and> intervals s' = intervals s) \<or>
      (silenceTimerRef s' = None \<and> intervals s' = intervals s - set_option (silenceTimerRef s) \<and>
       \<not> active (status s')))"
    by (cases reason) (auto simp: canceled_def stopTranslator_timer active_def)

lemma timer_StartFailed: "handle (StartFailed err) s = Some s' \<Longrightarrow>
     nextHandle s' = nextHandle s \<and>
      (silenceTimerRef s' = None \<and> intervals s' = intervals s - set_option (silenceTimerRef s) \<and>
       \<not> active (status s'))"
    by (auto simp: recognitionStartFailed_def stopTranslator_timer active_def)

lemma timer_Tick: "handle (Tick h now idNow ts) s = Some s' \<Longrightarrow>
     nextHandle s' = nextHandle s \<and> silenceTimerRef s' = silenceTimerRef s \<and> intervals s' = intervals s"
  by (auto simp: untouched_timer split: if_splits)

lemma timer_IndicatorTimeout: "handle IndicatorTimeout s = Some s' \<Longrightarrow>
     nextHandle s' = nextHandle s \<and> silenceTimerRef s' = silenceTimerRef s \<and> intervals s' = intervals s"
  by (auto simp: untouched_timer split: if_splits)

lemma timer_Stop: "handle Stop s = Some s' \<Longrightarrow>
     nextHandle s' = nextHandle s \<and>
      (silenceTimerRef s' = None \<and> intervals s' = intervals s - set_option (silenceTimerRef s) \<and>
       \<not> active (status s'))"
    by (auto simp: stopTranslator_timer active_def)


lemma timer_Recognizing: "handle (Recognizing reason x now) s = Some s' \<Longrightarrow>
     nextHandle s' = nextHandle s \<and> silenceTimerRef s' = silenceTimerRef s \<and> intervals s' = intervals s"
  by (auto simp: untouched_timer)

lemma timer_Recognized: "handle (Recognized reason x idNow ts now) s = Some s' \<Longrightarrow>
     nextHandle s' = nextHandle s \<and> silenceTimerRef s' = silenceTimerRef s \<and> intervals s' = intervals s"
  by (auto simp: untouched_timer)

lemma timer_Clear: "handle Clear s = Some s' \<Longrightarrow>
     nextHandle s' = nextHandle s \<and> silenceTimerRef s' = silenceTimerRef s \<and> intervals s' = intervals s"
  by (auto simp: untouched_timer)

lemma timer_ResetError: "handle ResetError s = Some s' \<Longrightarrow>
     nextHandle s' = nextHandle s \<and> silenceTimerRef s' = silenceTimerRef s \<and> intervals s' = intervals s"
  by (auto simp: untouched_timer)

lemma handle_timer:
  "handle e s = Some s' \<Longrightarrow>
     nextHandle s' = nextHandle s \<and>
     ((silenceTimerRef s' = silenceTimerRef s \<and> intervals s' = intervals s) \<or>
      (silenceTimerRef s' = None \<and> intervals s' = intervals s - set_option (silenceTimerRef s) \<and>
       \<not> active (status s')))"
proof -
  assume h: "handle e s = Some s'"
  show ?thesis
  proof (cases e)
    case (Start sdkLoaded now)
    with h timer_Start[of sdkLoaded now s s'] show ?thesis by simp
  next
    case (Resume outcome)
    with h timer_Resume[of outcome s s'] show ?thesis by simp
  next
    case (Recognizing reason x now)
    with h timer_Recognizing[of reason x now s s'] show ?thesis by simp
  next
    case (Recognized reason x idNow ts now)
    with h timer_Recognized[of reason x idNow ts now s s'] show ?thesis by simp
  next
    case (Canceled reason errorDetails)
    with h timer_Canceled[of reason errorDetails s s'] show ?thesis by simp
  next
    case (StartFailed err)
    with h timer_StartFailed[of err s s'] show ?thesis by simp
  next
    case (Tick k now idNow ts)
    with h timer_Tick[of k now idNow ts s s'] show ?thesis by simp
  next
    case IndicatorTimeout
    with h timer_IndicatorTimeout[of s s'] show ?thesis by simp
  next
    case Stop
    with h timer_Stop[of s s'] show ?thesis by simp
  next
    case Clear
    with h timer_Clear[of s s'] show ?thesis by simp
  next
    case ResetError
    with h timer_ResetError[of s s'] show ?thesis by simp
  qed
qed


lemma silenceEffect_fresh:
  assumes "silenceTimerRef s2 = None" and "intervals s2 = {}"
  shows "status (silenceEffect s2) = status s2"
    and "active (status s2) \<Longrightarrow> silenceTimerRef (silenceEffect s2) = Some (nextHandle s2)"
    and "active (status s2) \<Longrightarrow> intervals (silenceEffect s2) = {nextHandle s2}"
    and "active (status s2) \<Longrightarrow> nextHandle (silenceEffect s2) = Suc (nextHandle s2)"
    and "\<not> active (status s2) \<Longrightarrow> silenceTimerRef (silenceEffect s2) = None"
    and "\<not> active (status s2) \<Longrightarrow> intervals (silenceEffect s2) = {}"
    and "\<not> active (status s2) \<Longrightarrow> nextHandle (silenceEffect s2) = nextHandle s2"
  using assms by (simp_all add: silenceEffect_def clearSilenceTimer_def active_def)

lemma rerender_timer:
  assumes a: "intervals s1 = set_option (silenceTimerRef s1)"
    and b: "silenceTimerRef s1 \<noteq> None \<longrightarrow> active prev"
    and c: "status s1 = prev \<longrightarrow> (silenceTimerRef s1 = None \<longleftrightarrow> \<not> active (status s1))"
    and d: "\<forall>h\<in>intervals s1. h < nextHandle s1"
  shows "intervals (rerender prev s1) = set_option (silenceTimerRef (rerender prev s1))"
    and "silenceTimerRef (rerender prev s1) = None \<longleftrightarrow> \<not> active (status (rerender prev s1))"
    and "\<forall>h\<in>intervals (rerender prev s1). h < nextHandle (rerender prev s1)"
    and "nextHandle s1 \<le> nextHandle (rerender prev s1)"
    and "\<forall>h\<in>intervals (rerender prev s1). h \<in> intervals s1 \<or> nextHandle s1 \<le> h"
proof -
  have "intervals (rerender prev s1) = set_option (silenceTimerRef (rerender prev s1)) \<and>
         (silenceTimerRef (rerender prev s1) = None \<longleftrightarrow> \<not> active (status (rerender prev s1))) \<and>
         (\<forall>h\<in>intervals (rerender prev s1). h < nextHandle (rerender prev s1)) \<and>
         nextHandle s1 \<le> nextHandle (rerender prev s1) \<and>
         (\<forall>h\<in>intervals (rerender prev s1). h \<in> intervals s1 \<or> nextHandle s1 \<le> h)"
  proof (cases "status s1 = prev")
    case True
    then have "rerender prev s1 = s1" by (simp add: rerender_def)
    with a c d True show ?thesis by simp
  next
    case False
    define s2 where "s2 = (if active prev then clearSilenceTimer s1 else s1)"
    have s2: "silenceTimerRef s2 = None" "intervals s2 = {}" "nextHandle s2 = nextHandle s1"
      "status s2 = status s1"
      using a b by (auto simp: s2_def clearSilenceTimer_timer)
    have r: "rerender prev s1 = silenceEffect s2"
      using False by (simp add: rerender_def s2_def)
    show ?thesis
    proof (cases "active (status s2)")
      case True
      from silenceEffect_fresh(1)[OF s2(1,2)] silenceEffect_fresh(2-4)[OF s2(1,2) True] True s2
      show ?thesis unfolding r by simp
    next
      case False
      from silenceEffect_fresh(1)[OF s2(1,2)] silenceEffect_fresh(5-7)[OF s2(1,2) False] False s2
      show ?thesis unfolding r by simp
    qed
  qed
  then show "intervals (rerender prev s1) = set_option (silenceTimerRef (rerender prev s1))"
    and "silenceTimerRef (rerender prev s1) = None \<longleftrightarrow> \<not> active (status (rerender prev s1))"
    and "\<forall>h\<in>intervals (rerender prev s1). h < nextHandle (rerender prev s1)"
    and "nextHandle s1 \<le> nextHandle (rerender prev s1)"
    and "\<forall>h\<in>intervals (rerender prev s1). h \<in> intervals s1 \<or> nextHandle s1 \<le> h"
    by blast+
qed

lemma handle_timer_inv:
  assumes inv: "intervals s = set_option (silenceTimerRef s)"
      "silenceTimerRef s = None \<longleftrightarrow> \<not> active (status s)"
      "\<forall>h\<in>intervals s. h < nextHandle s"
    and h: "handle e s = Some s1"
  shows "intervals s1 = set_option (silenceTimerRef s1)"
    and "silenceTimerRef s1 \<noteq> None \<longrightarrow> active (status s)"
    and "status s1 = status s \<longrightarrow> (silenceTimerRef s1 = None \<longleftrightarrow> \<not> active (status s1))"
    and "\<forall>h\<in>intervals s1. h < nextHandle s1"
    and "intervals s1 \<subseteq> intervals s"
    and "nextHandle s1 = nextHandle s"
proof -
  from handle_timer[OF h] have n: "nextHandle s1 = nextHandle s"
    and t: "(silenceTimerRef s1 = silenceTimerRef s \<and> intervals s1 = intervals s) \<or>
      (silenceTimerRef s1 = None \<and> intervals s1 = intervals s - set_option (silenceTimerRef s) \<and>
       \<not> active (status s1))"
    by simp_all
  from t show "intervals s1 = set_option (silenceTimerRef s1)"
  proof
    assume "silenceTimerRef s1 = silenceTimerRef s \<and> intervals s1 = intervals s"
    with inv(1) show ?thesis by simp
  next
    assume "silenceTimerRef s1 = None \<and>
      intervals s1 = intervals s - set_option (silenceTimerRef s) \<and> \<not> active (status s1)"
    with inv(1) show ?thesis by simp
  qed
  from t show "silenceTimerRef s1 \<noteq> None \<longrightarrow> active (status s)"
  proof
    assume "silenceTimerRef s1 = silenceTimerRef s \<and> intervals s1 = intervals s"
    with inv(2) show ?thesis by simp
  next
    assume "silenceTimerRef s1 = None \<and>
      intervals s1 = intervals s - set_option (silenceTimerRef s) \<and> \<not> active (status s1)"
    then show ?thesis by simp
  qed
  from t show "status s1 = status s \<longrightarrow> (silenceTimerRef s1 = None \<longleftrightarrow> \<not> active (status s1))"
  proof
    assume "silenceTimerRef s1 = silenceTimerRef s \<and> intervals s1 = intervals s"
    with inv(2) show ?thesis by simp
  next
    assume "silenceTimerRef s1 = None \<and>
      intervals s1 = intervals s - set_option (silenceTimerRef s) \<and> \<not> active (status s1)"
    then show ?thesis by auto
  qed
  from t show sub: "intervals s1 \<subseteq> intervals s"
  proof
    assume "silenceTimerRef s1 = silenceTimerRef s \<and> intervals s1 = intervals s"
    then show ?thesis by simp
  next
    assume "silenceTimerRef s1 = None \<and>
      intervals s1 = intervals s - set_option (silenceTimerRef s) \<and> \<not> active (status s1)"
    then show ?thesis by simp
  qed
  from sub inv(3) n show "\<forall>h\<in>intervals s1. h < nextHandle s1"
    by (simp add: subset_iff)
  from n show "nextHandle s1 = nextHandle s" .
qed


lemma timer_inv_fire:
  assumes inv: "intervals s = set_option (silenceTimerRef s)"
      "silenceTimerRef s = None \<longleftrightarrow> \<not> active (status s)"
      "\<forall>h\<in>intervals s. h < nextHandle s"
    and f: "fire e s = Some s'"
  shows "intervals s' = set_option (silenceTimerRef s')"
    and "silenceTimerRef s' = None \<longleftrightarrow> \<not> active (status s')"
    and "\<forall>h\<in>intervals s'. h < nextHandle s'"
    and "nextHandle s \<le> nextHandle s'"
    and "\<forall>h\<in>intervals s'. h \<in> intervals s \<or> nextHandle s \<le> h"
proof -
  from f obtain s1 where h: "handle e s = Some s1" and r: "s' = rerender (status s) s1"
    unfolding fire_def by (cases "handle e s") simp_all
  note H = handle_timer_inv[OF inv h]
  note R = rerender_timer[OF H(1-4)]
  from R(1) show "intervals s' = set_option (silenceTimerRef s')" unfolding r .
  from R(2) show "silenceTimerRef s' = None \<longleftrightarrow> \<not> active (status s')" unfolding r .
  from R(3) show "\<forall>h\<in>intervals s'. h < nextHandle s'" unfolding r .
  from R(4) H(6) show "nextHandle s \<le> nextHandle s'" unfolding r by simp
  show "\<forall>h\<in>intervals s'. h \<in> intervals s \<or> nextHandle s \<le> h"
  proof
    fix k assume "k \<in> intervals s'"
    with R(5) have "k \<in> intervals s1 \<or> nextHandle s1 \<le> k" unfolding r by blast
    with H(5,6) show "k \<in> intervals s \<or> nextHandle s \<le> k" by auto
  qed
qed

lemma reachable_timer_inv:
  assumes "reachable s"
  shows "intervals s = set_option (silenceTimerRef s)"
    and "silenceTimerRef s = None \<longleftrightarrow> \<not> active (status s)"
    and "\<forall>h\<in>intervals s. h < nextHandle s"
proof -
  from assms
  have "intervals s = set_option (silenceTimerRef s) \<and>
     (silenceTimerRef s = None \<longleftrightarrow> \<not> active (status s)) \<and>
     (\<forall>h\<in>intervals s. h < nextHandle s)"
  proof (induction rule: reachable.induct)
    case reachable_initial
    show ?case by (simp add: initial_def active_def)
  next
    case (reachable_fire s e s')
    from reachable_fire.IH have i1: "intervals s = set_option (silenceTimerRef s)"
      and i2: "silenceTimerRef s = None \<longleftrightarrow> \<not> active (status s)"
      and i3: "\<forall>h\<in>intervals s. h < nextHandle s"
      by blast+
    from timer_inv_fire(1-3)[OF i1 i2 i3 reachable_fire.hyps(2)] show ?case by blast
  qed
  then show "intervals s = set_option (silenceTimerRef s)"
    and "silenceTimerRef s = None \<longleftrightarrow> \<not> active (status s)"
    and "\<forall>h\<in>intervals s. h < nextHandle s"
    by blast+
qed

lemma run_reachable: "reachable s \<Longrightarrow> run es s = Some s' \<Longrightarrow> reachable s'"
proof (induction es arbitrary: s)
  case Nil
  then show ?case by simp
next
  case (Cons e es)
  from Cons.prems(2) obtain s1 where f: "fire e s = Some s1" and r: "run es s1 = Some s'"
    by (cases "fire e s") simp_all
  from Cons.prems(1) f have "reachable s1" by (rule reachable_fire)
  from Cons.IH[OF this r] show ?case .
qed





subsection \<open>The live line and its ref\<close>

text \<open>
  While the status is active, \<open>interimText\<close> and \<open>currentInterimRef\<close> hold the same
  string, so a poll tick reads the live line that is displayed.
\<close>

lemma mirror_Start:
  "handle (Start sdkLoaded now) s = Some s' \<Longrightarrow>
     (active (status s) \<longrightarrow> interimText s = currentInterimRef s) \<Longrightarrow>
     active (status s') \<Longrightarrow> interimText s' = currentInterimRef s'"
  unfolding handle_Start
  by (auto simp: startTranslator_def active_def split: if_splits)

lemma mirror_Resume:
  "handle (Resume outcome) s = Some s' \<Longrightarrow>
     (active (status s) \<longrightarrow> interimText s = currentInterimRef s) \<Longrightarrow>
     active (status s') \<Longrightarrow> interimText s' = currentInterimRef s'"
  by (cases outcome)
     (auto simp: startTranslator_resume_def cleanupRecognizer_def clearSilenceTimer_def
        active_def split: if_splits option.splits)

lemma mirror_handle:
  assumes h: "handle e s = Some s'"
    and m: "active (status s) \<longrightarrow> interimText s = currentInterimRef s"
    and a: "active (status s')"
  shows "interimText s' = currentInterimRef s'"
proof (cases e)
  case (Start sdkLoaded now)
  with h m a show ?thesis using mirror_Start[of sdkLoaded now s s'] by simp
next
  case (Resume outcome)
  with h m a show ?thesis using mirror_Resume[of outcome s s'] by simp
next
  case (Recognizing reason x now)
  with h m a show ?thesis by (auto simp: recognizing_def split: if_splits)
next
  case (Recognized reason x idNow ts now)
  with h m a show ?thesis by (auto simp: recognized_def split: if_splits)
next
  case (Canceled reason errorDetails)
  with h m a show ?thesis
    by (cases reason) (auto simp: canceled_def stopTranslator_timer active_def)
next
  case (StartFailed err)
  with h a show ?thesis
    by (auto simp: recognitionStartFailed_def stopTranslator_timer active_def)
next
  case (Tick k now idNow ts)
  with h m a show ?thesis by (auto simp: checkSilence_def Let_def split: if_splits)
next
  case IndicatorTimeout
  with h m a show ?thesis by (auto simp: indicatorTimeout_def split: if_splits)
next
  case Stop
  with h a show ?thesis by (auto simp: stopTranslator_timer active_def)
next
  case Clear
  with h m a show ?thesis by (auto simp: clearTranscript_def)
next
  case ResetError
  with h m a show ?thesis by (auto simp: resetError_def)
qed

lemma reachable_mirror:
  "reachable s \<Longrightarrow> active (status s) \<Longrightarrow> interimText s = currentInterimRef s"
proof (induction rule: reachable.induct)
  case reachable_initial
  then show ?case by (simp add: initial_def)
next
  case (reachable_fire s e s')
  from reachable_fire.hyps(2) obtain s1 where h: "handle e s = Some s1"
    and r: "s' = rerender (status s) s1"
    by (rule fire_handle)
  from reachable_fire.prems r have a: "active (status s1)" by (simp add: rerender_frame)
  from reachable_fire.IH have m: "active (status s) \<longrightarrow> interimText s = currentInterimRef s"
    by simp
  from mirror_handle[OF h m a] r show ?case by (simp add: rerender_frame)
qed

lemma checkSilence_status: "status (checkSilence now idNow ts s) = status s"
  by (simp add: checkSilence_def Let_def)

lemma tick_reads_interimText:
  assumes "reachable s" and "fire (Tick h now idNow ts) s = Some s'"
  shows "s' = checkSilence now idNow ts s \<and> interimText s = currentInterimRef s"
proof -
  from assms(2) have h: "h \<in> intervals s"
    and s': "s' = rerender (status s) (checkSilence now idNow ts s)"
    by (simp_all add: fire_def split: if_splits)
  from s' have "s' = checkSilence now idNow ts s"
    using rerender_same[of "checkSilence now idNow ts s"] by (simp add: checkSilence_status)
  moreover from h reachable_timer_inv(1,2)[OF assms(1)] have "active (status s)" by auto
  with reachable_mirror[OF assms(1)] have "interimText s = currentInterimRef s" .
  ultimately show ?thesis by simp
qed

subsection \<open>The silence commit\<close>

text \<open>
  Claim C1. At a poll tick \<open>checkSilence now\<close> a silence commit happens if and only if
  \<open>now - lastUpdateTime \<ge> 700\<close>, the trimmed live line is not empty and the trimmed live line
  differs from the last committed text. The live line the tick reads is \<open>currentInterimRef\<close>,
  the ref that the handlers write together with \<open>interimText\<close>: at every tick that fires in
  a reachable state the two are equal, and the tick is \<open>checkSilence\<close>. When the commit happens, one
  entry is appended whose text is the trimmed live line, with a full stop added exactly when
  its last code unit is none of the seven terminal marks; the last committed text becomes
  that text, the live line is cleared and \<open>lastUpdateTime\<close> becomes \<open>now\<close>. Otherwise the
  tick changes nothing. Finally, while interim events keep arriving less than 700 ms apart,
  no run of interim events and poll ticks commits anything.
\<close>

theorem silence_commit_condition:
  "(now - lastUpdateTimeRef s \<ge> 700 \<and> trim (currentInterimRef s) \<noteq> [] \<and>
      trim (currentInterimRef s) \<noteq> lastCommittedTextRef s
    \<longrightarrow> transcript (checkSilence now idNow ts s) =
          transcript s @
            [\<lparr> item_id = idNow, item_timestamp = ts,
               item_text =
                 (if endsWithPunctuation (trim (currentInterimRef s))
                  then trim (currentInterimRef s)
                  else trim (currentInterimRef s) @ js ''.'') \<rparr>] \<and>
        lastCommittedTextRef (checkSilence now idNow ts s) =
          item_text (last (transcript (checkSilence now idNow ts s))) \<and>
        lastCommitted (checkSilence now idNow ts s) =
          item_text (last (transcript (checkSilence now idNow ts s))) \<and>
        interimText (checkSilence now idNow ts s) = [] \<and>
        currentInterimRef (checkSilence now idNow ts s) = [] \<and>
        lastUpdateTimeRef (checkSilence now idNow ts s) = now) \<and>
   (\<not> (now - lastUpdateTimeRef s \<ge> 700 \<and> trim (currentInterimRef s) \<noteq> [] \<and>
      trim (currentInterimRef s) \<noteq> lastCommittedTextRef s)
    \<longrightarrow> checkSilence now idNow ts s = s) \<and>
   (endsWithPunctuation t \<longleftrightarrow>
      t \<noteq> [] \<and> last t \<in> {0x2E, 0x3F, 0x21, 0x2026, 0x3002, 0xFF1F, 0xFF01}) \<and>
   (steadyUpdates (lastUpdateTimeRef s) es \<and> run es s = Some s'
    \<longrightarrow> transcript s' = transcript s) \<and>
   (reachable s \<and> fire (Tick h now idNow ts) s = Some s''
    \<longrightarrow> s'' = checkSilence now idNow ts s \<and> interimText s = currentInterimRef s)"
  using steady_no_commit[of s es s'] tick_reads_interimText[of s h now idNow ts s'']
  by (simp add: checkSilence_def SILENCE_MS_def Let_def endsWithPunctuation_def
      terminalPunctuation_def)

text \<open>
  Witness for C1: after 700 ms of silence \<open>hello world\<close> is committed as \<open>hello world.\<close> and
  \<open>hello world?\<close> as it is; after 699 ms nothing happens; and a session whose interim events
  arrive 500 ms apart, polled in between, commits nothing.
\<close>

theorem silence_commit_condition_witness:
  "transcript (checkSilence 1900 1900 (js ''12:00:01'')
      (recognizing TranslatingSpeech (Some (js ''hello world'')) 1200 initial)) =
     [\<lparr> item_id = 1900, item_timestamp = js ''12:00:01'', item_text = js ''hello world.'' \<rparr>] \<and>
   transcript (checkSilence 1900 1900 (js ''12:00:01'')
      (recognizing TranslatingSpeech (Some (js ''hello world?'')) 1200 initial)) =
     [\<lparr> item_id = 1900, item_timestamp = js ''12:00:01'', item_text = js ''hello world?'' \<rparr>] \<and>
   checkSilence 1899 1899 (js ''12:00:01'')
      (recognizing TranslatingSpeech (Some (js ''hello world'')) 1200 initial) =
     recognizing TranslatingSpeech (Some (js ''hello world'')) 1200 initial \<and>
   steadyUpdates 1000
     [Tick 2 1400 1400 (js ''12:00:01''),
      Recognizing TranslatingSpeech (Some (js ''Hola mundo'')) 1500,
      Tick 2 1600 1600 (js ''12:00:01''), Tick 2 1999 1999 (js ''12:00:01''),
      Recognizing TranslatingSpeech (Some (js ''Hola mundo otra vez'')) 2000] \<and>
   map_option transcript
     (run [Tick 2 1400 1400 (js ''12:00:01''),
           Recognizing TranslatingSpeech (Some (js ''Hola mundo'')) 1500,
           Tick 2 1600 1600 (js ''12:00:01''), Tick 2 1999 1999 (js ''12:00:01''),
           Recognizing TranslatingSpeech (Some (js ''Hola mundo otra vez'')) 2000]
        (the (run [Start True 900, Resume Started,
                   Recognizing TranslatingSpeech (Some (js ''Hola'')) 1000] initial))) = Some [] \<and>
   reachable (the (run [Start True 900, Resume Started,
                   Recognizing TranslatingSpeech (Some (js ''Hola'')) 1000] initial)) \<and>
   fire (Tick 2 1400 1400 (js ''12:00:01''))
        (the (run [Start True 900, Resume Started,
                   Recognizing TranslatingSpeech (Some (js ''Hola'')) 1000] initial)) =
     Some (the (run [Start True 900, Resume Started,
                   Recognizing TranslatingSpeech (Some (js ''Hola'')) 1000] initial)) \<and>
   interimText (the (run [Start True 900, Resume Started,
                   Recognizing TranslatingSpeech (Some (js ''Hola'')) 1000] initial)) = js ''Hola''"
proof -
  let ?live = "recognizing TranslatingSpeech (Some (js ''hello world'')) 1200 initial"
  let ?asked = "recognizing TranslatingSpeech (Some (js ''hello world?'')) 1200 initial"
  let ?base = "the (run [Start True 900, Resume Started,
                   Recognizing TranslatingSpeech (Some (js ''Hola'')) 1000] initial)"
  let ?feed = "[Tick 2 1400 1400 (js ''12:00:01''),
           Recognizing TranslatingSpeech (Some (js ''Hola mundo'')) 1500,
           Tick 2 1600 1600 (js ''12:00:01''), Tick 2 1999 1999 (js ''12:00:01''),
           Recognizing TranslatingSpeech (Some (js ''Hola mundo otra vez'')) 2000]"
  have s: "lastUpdateTimeRef ?live = 1200" "currentInterimRef ?live = js ''hello world''"
    "lastCommittedTextRef ?live = []" "transcript ?live = []"
    by (simp_all add: recognizing_def truthy_def js_def initial_def)
  have q: "lastUpdateTimeRef ?asked = 1200" "currentInterimRef ?asked = js ''hello world?''"
    "lastCommittedTextRef ?asked = []" "transcript ?asked = []"
    by (simp_all add: recognizing_def truthy_def js_def initial_def)
  have tr: "trim (js ''hello world'') = js ''hello world''"
    "trim (js ''hello world?'') = js ''hello world?''"
    "\<not> endsWithPunctuation (js ''hello world'')" "endsWithPunctuation (js ''hello world?'')"
    by (simp_all add: trim_def js_def isWhiteSpace_def endsWithPunctuation_def
        terminalPunctuation_def)
  have b: "lastUpdateTimeRef ?base = 1000" "transcript ?base = []"
    by (simp_all add: ev)
  have st: "steadyUpdates 1000 ?feed" by (simp add: truthy_def js_def)
  have rn: "run ?feed ?base = Some (the (run ?feed ?base))" by (simp add: ev)
  from silence_commit_condition[of 1900 ?live 1900 "js ''12:00:01''" "[]" "[]" ?live 0 ?live]
  have c1: "transcript (checkSilence 1900 1900 (js ''12:00:01'') ?live) =
     [\<lparr> item_id = 1900, item_timestamp = js ''12:00:01'', item_text = js ''hello world.'' \<rparr>]"
    using s tr by (simp add: js_def)
  from silence_commit_condition[of 1900 ?asked 1900 "js ''12:00:01''" "[]" "[]" ?asked 0 ?asked]
  have c2: "transcript (checkSilence 1900 1900 (js ''12:00:01'') ?asked) =
     [\<lparr> item_id = 1900, item_timestamp = js ''12:00:01'', item_text = js ''hello world?'' \<rparr>]"
    using q tr by (simp add: js_def)
  from silence_commit_condition[of 1899 ?live 1899 "js ''12:00:01''" "[]" "[]" ?live 0 ?live]
  have c3: "checkSilence 1899 1899 (js ''12:00:01'') ?live = ?live"
    using s by simp
  from silence_commit_condition[of 0 ?base 0 "[]" "[]" ?feed "the (run ?feed ?base)" 0 ?base]
    st rn b
  have c4: "transcript (the (run ?feed ?base)) = []" by simp
  from rn c4 have c5: "map_option transcript (run ?feed ?base) = Some []"
    by (metis option.simps(9))
  have run0: "run [Start True 900, Resume Started,
                   Recognizing TranslatingSpeech (Some (js ''Hola'')) 1000] initial = Some ?base"
    by (simp add: ev)
  from run_reachable[OF reachable_initial run0] have reach: "reachable ?base" .
  have tick: "fire (Tick 2 1400 1400 (js ''12:00:01'')) ?base = Some ?base"
    by (simp add: ev)
  have cur: "currentInterimRef ?base = js ''Hola''" by (simp add: ev)
  from silence_commit_condition[of 1400 ?base 1400 "js ''12:00:01''" "[]" "[]" ?base 2 ?base]
    reach tick cur
  have c6: "interimText ?base = js ''Hola''" by simp
  from c1 c2 c3 st c5 reach tick c6 show ?thesis by blast
qed

subsection \<open>Identifiers of transcript entries\<close>

text \<open>
  Claim C8. The ids of the entries should be pairwise distinct however close two commits
  are. An id is the reading of \<open>Date.now()\<close> at the commit, in milliseconds. When a silence
  commit and a final event are handled within the same millisecond, both entries get the same
  id: here the tick commits \<open>hello.\<close> at 1700 and the final event \<open>hello\<close> is handled at 1700.
\<close>

theorem transcript_ids_collide:
  "map_option (map item_id \<circ> transcript)
     (run [Start True 900, Resume Started,
           Recognizing TranslatingSpeech (Some (js ''hello'')) 1000,
           Tick 2 1700 1700 (js ''12:00:01''),
           Recognized TranslatedSpeech (Some (js ''hello'')) 1700 (js ''12:00:01'') 1700]
        initial) = Some [1700, 1700] \<and>
   \<not> distinct [1700, 1700 :: int]"
  by (simp add: ev)

subsection \<open>Starting twice\<close>











subsection \<open>The first interim event of a session\<close>

text \<open>
  Events other than an interim event that passes the guard keep \<open>latencyMs\<close> empty and keep
  \<open>lastEventTimeRef\<close> at zero.
\<close>

lemma handle_latency_other:
  "handle e s = Some s' \<Longrightarrow> interimEvents [e] = 0 \<Longrightarrow>
     (latencyMs s = None \<longrightarrow> latencyMs s' = None) \<and>
     (lastEventTimeRef s \<le> 0 \<longrightarrow> lastEventTimeRef s' \<le> 0)"
  by (cases e)
     (auto simp: handler_defs Let_def split: if_splits option.splits StartOutcome.splits)

lemma fire_latency_other:
  "fire e s = Some s' \<Longrightarrow> interimEvents [e] = 0 \<Longrightarrow>
     (latencyMs s = None \<longrightarrow> latencyMs s' = None) \<and>
     (lastEventTimeRef s \<le> 0 \<longrightarrow> lastEventTimeRef s' \<le> 0)"
proof -
  assume a: "fire e s = Some s'" and b: "interimEvents [e] = 0"
  from a obtain s1 where h: "handle e s = Some s1" and r: "s' = rerender (status s) s1"
    by (rule fire_handle)
  from handle_latency_other[OF h b] r show ?thesis by (simp add: rerender_frame)
qed

lemma interimEvents_Cons: "interimEvents (e # es) = interimEvents [e] + interimEvents es"
  by (cases e) simp_all

lemma run_no_interim_latency:
  "run es s = Some s' \<Longrightarrow> interimEvents es = 0 \<Longrightarrow> latencyMs s = None \<Longrightarrow>
     latencyMs s' = None"
proof (induction es arbitrary: s)
  case Nil
  then show ?case by simp
next
  case (Cons e es)
  from Cons.prems(1) obtain s1 where f: "fire e s = Some s1" and r: "run es s1 = Some s'"
    by (rule run_Cons)
  from Cons.prems(2) have e0: "interimEvents [e] = 0" and es0: "interimEvents es = 0"
    using interimEvents_Cons[of e es] by simp_all
  from fire_latency_other[OF f e0] Cons.prems(3) have "latencyMs s1 = None" by simp
  with Cons.IH[OF r es0] show ?case .
qed

lemma run_first_interim_latency:
  "run es s = Some s' \<Longrightarrow> interimEvents es \<le> 1 \<Longrightarrow> latencyMs s = None \<Longrightarrow>
     lastEventTimeRef s \<le> 0 \<Longrightarrow> latencyMs s' = None"
proof (induction es arbitrary: s)
  case Nil
  then show ?case by simp
next
  case (Cons e es)
  from Cons.prems(1) obtain s1 where f: "fire e s = Some s1" and r: "run es s1 = Some s'"
    by (rule run_Cons)
  show ?case
  proof (cases "interimEvents [e] = 0")
    case True
    with Cons.prems(2) have es1: "interimEvents es \<le> 1"
      using interimEvents_Cons[of e es] by simp
    from fire_latency_other[OF f True] Cons.prems(3,4)
    have "latencyMs s1 = None" "lastEventTimeRef s1 \<le> 0" by simp_all
    with Cons.IH[OF r es1] show ?thesis by simp
  next
    case False
    then obtain reason x now where e: "e = Recognizing reason x now"
      and eff: "reason = TranslatingSpeech" "truthy x"
      by (cases e) (auto split: if_splits)
    with Cons.prems(2) have es0: "interimEvents es = 0" by simp
    from f e have "s1 = rerender (status s) (recognizing reason x now s)"
      by (simp add: fire_def)
    with Cons.prems(3,4) have "latencyMs s1 = None"
      by (simp add: rerender_frame recognizing_def latencySample_def)
    with run_no_interim_latency[OF r es0] show ?thesis .
  qed
qed

text \<open>
  Claim C10, as the code has it. \<open>stopTranslator\<close> resets \<open>lastEventTimeRef\<close> to zero and
  \<open>latencyMs\<close> to none, the values they have when the hook is created. So the first interim
  event after a stop, or after the creation of the hook, reports no sample, and in any run
  that starts there and contains at most one interim event that passes the guard,
  \<open>latencyMs\<close> is still none at the end: a sample needs two interim events since the last
  stop.
\<close>

theorem first_interim_no_latency:
  "lastEventTimeRef (stopTranslator s) = 0 \<and> latencyMs (stopTranslator s) = None \<and>
   lastEventTimeRef initial = 0 \<and> latencyMs initial = None \<and>
   latencyMs (recognizing reason x now (stopTranslator s)) = None \<and>
   latencyMs (recognizing reason x now initial) = None \<and>
   (fire Stop s = Some s1 \<and> run es s1 = Some s2 \<and> interimEvents es \<le> 1
      \<longrightarrow> latencyMs s2 = None) \<and>
   (run es initial = Some s2 \<and> interimEvents es \<le> 1 \<longrightarrow> latencyMs s2 = None)"
proof -
  have stop: "lastEventTimeRef (stopTranslator s) = 0 \<and> latencyMs (stopTranslator s) = None"
    by (simp add: stopTranslator_def)
  have init: "lastEventTimeRef initial = 0 \<and> latencyMs initial = None"
    by (simp add: initial_def)
  have one: "latencyMs (recognizing reason x now (stopTranslator s)) = None"
    using stop by (simp add: recognizing_def latencySample_def)
  have one': "latencyMs (recognizing reason x now initial) = None"
    using init by (simp add: recognizing_def latencySample_def)
  have after: "latencyMs s2 = None"
    if "fire Stop s = Some s1" "run es s1 = Some s2" "interimEvents es \<le> 1"
  proof -
    from that(1) have "s1 = rerender (status s) (stopTranslator s)" by (simp add: fire_def)
    with stop have "latencyMs s1 = None" "lastEventTimeRef s1 \<le> 0"
      by (simp_all add: rerender_frame)
    with run_first_interim_latency[OF that(2,3)] show ?thesis by simp
  qed
  have fresh: "latencyMs s2 = None" if "run es initial = Some s2" "interimEvents es \<le> 1"
    using run_first_interim_latency[OF that] init by simp
  from stop init one one' after fresh show ?thesis by blast
qed

text \<open>
  Witness for C10: a session reports the sample 400 at its second interim event; after the
  stop, the first interim event of the next session reports none, as does the first interim
  event of the very first session.
\<close>

theorem first_interim_no_latency_witness:
  "map_option latencyMs
     (run [Start True 900, Resume Started,
           Recognizing TranslatingSpeech (Some (js ''Hola'')) 1000,
           Recognizing TranslatingSpeech (Some (js ''Hola mundo'')) 1400] initial) = Some (Some 400) \<and>
   interimEvents [Start True 5000, Resume Started,
           Recognizing TranslatingSpeech (Some (js ''Adios'')) 5400] \<le> 1 \<and>
   map_option latencyMs
     (run [Start True 900, Resume Started,
           Recognizing TranslatingSpeech (Some (js ''Hola'')) 1000,
           Recognizing TranslatingSpeech (Some (js ''Hola mundo'')) 1400,
           Stop,
           Start True 5000, Resume Started,
           Recognizing TranslatingSpeech (Some (js ''Adios'')) 5400] initial) = Some None \<and>
   map_option latencyMs
     (run [Start True 5000, Resume Started,
           Recognizing TranslatingSpeech (Some (js ''Adios'')) 5400] initial) = Some None"
proof -
  let ?before = "the (run [Start True 900, Resume Started,
           Recognizing TranslatingSpeech (Some (js ''Hola'')) 1000,
           Recognizing TranslatingSpeech (Some (js ''Hola mundo'')) 1400] initial)"
  let ?again = "[Start True 5000, Resume Started,
           Recognizing TranslatingSpeech (Some (js ''Adios'')) 5400]"
  let ?stopped = "the (fire Stop ?before)"
  have b: "run [Start True 900, Resume Started,
           Recognizing TranslatingSpeech (Some (js ''Hola'')) 1000,
           Recognizing TranslatingSpeech (Some (js ''Hola mundo'')) 1400] initial = Some ?before"
    "latencyMs ?before = Some 400"
    by (simp_all add: ev)
  have st: "fire Stop ?before = Some ?stopped" by (simp add: fire_def)
  have r: "run ?again ?stopped = Some (the (run ?again ?stopped))"
    by (simp add: ev)
  have r': "run ?again initial = Some (the (run ?again initial))"
    by (simp add: ev)
  have n: "interimEvents ?again \<le> 1" by (simp add: truthy_def js_def)
  note T = first_interim_no_latency[of ?before TranslatingSpeech "Some (js ''Adios'')" 5400
      ?stopped ?again "the (run ?again ?stopped)"]
  note T' = first_interim_no_latency[of ?before TranslatingSpeech "Some (js ''Adios'')" 5400
      ?stopped ?again "the (run ?again initial)"]
  from T st r n have l: "latencyMs (the (run ?again ?stopped)) = None" by blast
  from T' r' n have l': "latencyMs (the (run ?again initial)) = None" by blast
  have whole: "run [Start True 900, Resume Started,
           Recognizing TranslatingSpeech (Some (js ''Hola'')) 1000,
           Recognizing TranslatingSpeech (Some (js ''Hola mundo'')) 1400,
           Stop,
           Start True 5000, Resume Started,
           Recognizing TranslatingSpeech (Some (js ''Adios'')) 5400] initial = run ?again ?stopped"
    by (simp add: ev)
  from b have c1: "map_option latencyMs
     (run [Start True 900, Resume Started,
           Recognizing TranslatingSpeech (Some (js ''Hola'')) 1000,
           Recognizing TranslatingSpeech (Some (js ''Hola mundo'')) 1400] initial) = Some (Some 400)"
    by (metis option.simps(9))
  from r l have c2: "map_option latencyMs (run ?again ?stopped) = Some None"
    by (metis option.simps(9))
  from r' l' have c3: "map_option latencyMs (run ?again initial) = Some None"
    by (metis option.simps(9))
  from c1 n c2 c3 show ?thesis unfolding whole by blast
qed


text \<open>
  Counterexample to C10 as stated: \<open>startTranslator\<close> does not reset
  \<open>lastEventTimeRef\<close>, only \<open>stopTranslator\<close> does. In the first run a session ends
  through the \<open>catch\<close> block of a second, failing start (\<open>cleanupRecognizer\<close> alone); in
  the second run an interim event is delivered between the stop and the next start. In both,
  the session started at 1200 receives a single interim event, at 1400, and that event
  reports a sample.
\<close>

theorem first_interim_sample_counterexample:
  "map_option latencyMs
     (run [Start True 900, Start True 950, Resume Started,
           Recognizing TranslatingSpeech (Some (js ''Hola'')) 1000,
           Resume (Thrown (Some (js ''Permission denied''))),
           Start True 1200, Resume Started] initial) = Some None \<and>
   map_option latencyMs
     (run [Start True 900, Start True 950, Resume Started,
           Recognizing TranslatingSpeech (Some (js ''Hola'')) 1000,
           Resume (Thrown (Some (js ''Permission denied''))),
           Start True 1200, Resume Started,
           Recognizing TranslatingSpeech (Some (js ''Adios'')) 1400] initial) = Some (Some 400) \<and>
   map_option latencyMs
     (run [Start True 900, Resume Started, Stop,
           Recognizing TranslatingSpeech (Some (js ''Hola'')) 1000,
           Start True 1200, Resume Started] initial) = Some None \<and>
   map_option latencyMs
     (run [Start True 900, Resume Started, Stop,
           Recognizing TranslatingSpeech (Some (js ''Hola'')) 1000,
           Start True 1200, Resume Started,
           Recognizing TranslatingSpeech (Some (js ''Adios'')) 1400] initial) = Some (Some 400)"
  by (simp add: ev)

end
